theory Spec2Isabelle
  imports Main
begin

section \<open>Python values, exceptions and the environment\<close>

text \<open>
  The scripts handle decoded JSON documents with Python's duck typing: the same
  expression may be applied to a dict, a list, a string or a number, and raises when the
  value has the wrong shape. \<open>json\<close> is the type of decoded documents; \<open>JNull\<close> is Python's
  \<open>None\<close>, a dict is the list of its items (keys are strings). A \<open>char\<close> stands for one
  character of a Python \<open>str\<close>.
\<close>

datatype json =
    JNull
  | JBool bool
  | JNum int
  | JStr string
  | JList "json list"
  | JObj "(string \<times> json) list"

datatype exn =
    RequestException
  | JSONDecodeError
  | KeyError
  | TypeError
  | IndexError
  | AttributeError
  | OSError

text \<open>Truth value of a Python object, as tested by \<open>if items:\<close> and \<open>if not x:\<close>.\<close>

fun truthy :: "json \<Rightarrow> bool" where
  "truthy JNull = False"
| "truthy (JBool b) = b"
| "truthy (JNum n) = (n \<noteq> 0)"
| "truthy (JStr s) = (s \<noteq> [])"
| "truthy (JList xs) = (xs \<noteq> [])"
| "truthy (JObj kvs) = (kvs \<noteq> [])"

text \<open>
  \<open>v[k]\<close> with a string key: a dict looks the key up (\<open>KeyError\<close> when absent); a list or
  a string wants an integer index and every other value is not subscriptable
  (\<open>TypeError\<close>).
\<close>

fun getitem_str :: "json \<Rightarrow> string \<Rightarrow> exn + json" where
  "getitem_str (JObj kvs) k = (case map_of kvs k of None \<Rightarrow> Inl KeyError | Some v \<Rightarrow> Inr v)"
| "getitem_str _ k = Inl TypeError"

text \<open>
  \<open>v[0]\<close> and \<open>v[-1]\<close>: on a list or a string the first and the last element
  (\<open>IndexError\<close> when empty); on a dict the integer is looked up as a key, which a decoded
  JSON object never has (\<open>KeyError\<close>); anything else is not subscriptable.
\<close>

fun getitem_first :: "json \<Rightarrow> exn + json" where
  "getitem_first (JList xs) = (case xs of [] \<Rightarrow> Inl IndexError | x # _ \<Rightarrow> Inr x)"
| "getitem_first (JStr s) = (case s of [] \<Rightarrow> Inl IndexError | c # _ \<Rightarrow> Inr (JStr [c]))"
| "getitem_first (JObj kvs) = Inl KeyError"
| "getitem_first _ = Inl TypeError"

fun getitem_last :: "json \<Rightarrow> exn + json" where
  "getitem_last (JList xs) = (if xs = [] then Inl IndexError else Inr (last xs))"
| "getitem_last (JStr s) = (if s = [] then Inl IndexError else Inr (JStr [last s]))"
| "getitem_last (JObj kvs) = Inl KeyError"
| "getitem_last _ = Inl TypeError"

text \<open>Sequencing of computations that may raise: the first exception wins.\<close>

fun and_then :: "exn + 'a \<Rightarrow> ('a \<Rightarrow> exn + 'b) \<Rightarrow> exn + 'b" where
  "and_then (Inl e) f = Inl e"
| "and_then (Inr v) f = f v"

section \<open>The history store of \<open>KDENASAWallpaper\<close> (apiscript.py)\<close>

text \<open>
  The history file \<open>wallpaper_history.json\<close> either does not exist, holds text that
  \<open>json.load\<close> rejects, or holds a document. \<open>json.dump\<close> followed by \<open>json.load\<close> is taken
  to give the document back.
\<close>

datatype hfile = Missing | Corrupt | Doc json

text \<open>
  The logger calls of the class, without the text of the exception that the message
  carries.
\<close>

datatype log_event = Info string | Error string

text \<open>
  The part of the machine the class acts on: the files under the temporary and the
  wallpaper directory (path to content), the history file, the image the desktop shows
  and the log.
\<close>

record world =
  files :: "string \<rightharpoonup> string"
  history_file :: hfile
  desktop_image :: "string option"
  log :: "log_event list"

text \<open>
  Lines 115 to 119 of \<open>save_wallpaper_history\<close>, the only place where the history is read:
  an absent file is the empty list, an existing one is decoded.
\<close>

fun load_history :: "hfile \<Rightarrow> exn + json" where
  "load_history Missing = Inr (JList [])"
| "load_history Corrupt = Inl JSONDecodeError"
| "load_history (Doc v) = Inr v"

text \<open>The entry appended at lines 121 to 124; \<open>now\<close> is \<open>datetime.now().isoformat()\<close>.\<close>

definition history_entry :: "string \<Rightarrow> string \<Rightarrow> json" where
  "history_entry image_path now = JObj [(''path'', JStr image_path), (''date'', JStr now)]"

text \<open>\<open>history[-50:]\<close> on a list.\<close>

definition last_50 :: "'a list \<Rightarrow> 'a list" where
  "last_50 xs = drop (length xs - 50) xs"

text \<open>
  What \<open>with open(history_file, 'w') as f: json.dump(history, f, indent=2)\<close> does is the
  environment's choice: it completes, \<open>open\<close> raises and the file is untouched, or the
  dump raises after \<open>open\<close> has truncated the file, which leaves an incomplete document.
\<close>

datatype dump_outcome = DumpOk | DumpOpenRaises | DumpRaises

definition save_failed :: "world \<Rightarrow> world" where
  "save_failed w = w\<lparr>log := log w @ [Error ''Failed to save wallpaper history'']\<rparr>"

text \<open>
  \<open>save_wallpaper_history\<close>. \<open>history.append\<close> exists on a list only: any other document
  raises \<open>AttributeError\<close>. Every exception is caught and logged.
\<close>

definition save_wallpaper_history :: "dump_outcome \<Rightarrow> string \<Rightarrow> string \<Rightarrow> world \<Rightarrow> world" where
  "save_wallpaper_history dump now image_path w =
     (case load_history (history_file w) of
        Inl e \<Rightarrow> save_failed w
      | Inr (JList xs) \<Rightarrow>
          (let history = last_50 (xs @ [history_entry image_path now]) in
           case dump of
             DumpOk \<Rightarrow> w\<lparr>history_file := Doc (JList history)\<rparr>
           | DumpOpenRaises \<Rightarrow> save_failed w
           | DumpRaises \<Rightarrow> save_failed (w\<lparr>history_file := Corrupt\<rparr>))
      | Inr _ \<Rightarrow> save_failed w)"

text \<open>
  \<open>set_wallpaper\<close>: \<open>script_ok\<close> tells whether \<open>plasma_interface.evaluateScript\<close> returns or
  raises. The history is saved after the script has run, inside the same \<open>try\<close>.
\<close>

definition set_wallpaper :: "bool \<Rightarrow> dump_outcome \<Rightarrow> string \<Rightarrow> string \<Rightarrow> world \<Rightarrow> world" where
  "set_wallpaper script_ok dump now image_path w =
     (if script_ok then
        save_wallpaper_history dump now image_path
          (w\<lparr>desktop_image := Some image_path,
             log := log w @ [Info (''Successfully set wallpaper: '' @ image_path)]\<rparr>)
      else w\<lparr>log := log w @ [Error ''Failed to set wallpaper'']\<rparr>)"

text \<open>
  Recording a sequence of wallpapers, each with its time stamp, one call after the other,
  every write completing.
\<close>

definition record_all :: "(string \<times> string) list \<Rightarrow> world \<Rightarrow> world" where
  "record_all ops w = foldl (\<lambda>w (image_path, now). save_wallpaper_history DumpOk now image_path w) w ops"

definition entries_of :: "(string \<times> string) list \<Rightarrow> json list" where
  "entries_of ops = map (\<lambda>(image_path, now). history_entry image_path now) ops"

text \<open>The list a later call would start from, when there is one.\<close>

definition stored :: "world \<Rightarrow> json list option" where
  "stored w = (case load_history (history_file w) of Inr (JList xs) \<Rightarrow> Some xs | _ \<Rightarrow> None)"

text \<open>A machine on which the class has not run yet.\<close>

definition fresh_world :: world where
  "fresh_world = \<lparr>files = Map.empty, history_file = Missing, desktop_image = None, log = []\<rparr>"

section \<open>Strings\<close>

text \<open>
  \<open>str.lower\<close> on the letters A to Z. Outside ASCII Python's \<open>lower\<close> may change a
  character too, but never into one of the characters of \<open>.jpg\<close>, \<open>.jpeg\<close> or \<open>.png\<close>,
  which is what the manifest loop compares the result with. The extension of a file name
  (line 166) is lowered by \<open>str_lower\<close> below.
\<close>

definition lower_char :: "char \<Rightarrow> char" where
  "lower_char c =
     (case map_of (zip ''ABCDEFGHIJKLMNOPQRSTUVWXYZ'' ''abcdefghijklmnopqrstuvwxyz'') c of
        None \<Rightarrow> c
      | Some l \<Rightarrow> l)"

definition lower :: "string \<Rightarrow> string" where
  "lower s = map lower_char s"

definition endswith :: "string \<Rightarrow> string \<Rightarrow> bool" where
  "endswith s suffix =
     (length suffix \<le> length s \<and> drop (length s - length suffix) s = suffix)"

text \<open>\<open>s.split(sep)\<close> for a separator of one character: never empty.\<close>

fun py_split :: "char \<Rightarrow> string \<Rightarrow> string list" where
  "py_split sep [] = [[]]"
| "py_split sep (c # cs) =
     (if c = sep then [] # py_split sep cs
      else (case py_split sep cs of [] \<Rightarrow> [[c]] | seg # segs \<Rightarrow> (c # seg) # segs))"

text \<open>
  \<open>str.lower\<close> in full. On a string of ASCII characters it is \<open>lower\<close>. On any other string
  it follows the Unicode tables of the interpreter, which are not part of the repository:
  there it is the parameter \<open>unicode_lower\<close>.
\<close>

definition is_ascii :: "string \<Rightarrow> bool" where
  "is_ascii s = list_all (\<lambda>c. \<not> digit7 c) s"

definition str_lower :: "(string \<Rightarrow> string) \<Rightarrow> string \<Rightarrow> string" where
  "str_lower unicode_lower s = (if is_ascii s then lower s else unicode_lower s)"

section \<open>Paths\<close>

text \<open>
  \<open>pathlib\<close> on POSIX keeps of a path its anchor (nothing, one slash, or two slashes when
  the text begins with exactly two) and its names: the pieces between slashes, without the
  empty ones and the single dots. \<open>str\<close> of a path joins them again; the empty path is
  printed as a dot.
\<close>

definition path_anchor :: "string \<Rightarrow> string" where
  "path_anchor s =
     (case s of
        [] \<Rightarrow> []
      | c1 # s1 \<Rightarrow>
          if c1 \<noteq> CHR ''/'' then []
          else (case s1 of
                  [] \<Rightarrow> ''/''
                | c2 # s2 \<Rightarrow>
                    if c2 \<noteq> CHR ''/'' then ''/''
                    else (case s2 of
                            [] \<Rightarrow> ''//''
                          | c3 # s3 \<Rightarrow> if c3 = CHR ''/'' then ''/'' else ''//'')))"

definition path_names :: "string \<Rightarrow> string list" where
  "path_names s = filter (\<lambda>name. name \<noteq> [] \<and> name \<noteq> ''.'') (py_split CHR ''/'' s)"

fun join_slash :: "string list \<Rightarrow> string" where
  "join_slash [] = []"
| "join_slash [name] = name"
| "join_slash (name # names) = name @ ''/'' @ join_slash names"

definition path_str :: "string \<Rightarrow> string list \<Rightarrow> string" where
  "path_str anchor names = (if anchor = [] \<and> names = [] then ''.'' else anchor @ join_slash names)"

text \<open>
  \<open>str(Path(dir) / name)\<close>: a \<open>name\<close> with an anchor replaces the directory, any other is
  appended to it.
\<close>

definition path_join :: "string \<Rightarrow> string \<Rightarrow> string" where
  "path_join dir name =
     (if path_anchor name \<noteq> [] then path_str (path_anchor name) (path_names name)
      else path_str (path_anchor dir) (path_names dir @ path_names name))"

section \<open>Choosing the image of a manifest in \<open>fetch_and_set_wallpaper\<close> (apiscript.py)\<close>

text \<open>\<open>d.get(k, dflt)\<close>: only a dict has the method.\<close>

fun dict_get :: "json \<Rightarrow> string \<Rightarrow> json \<Rightarrow> exn + json" where
  "dict_get (JObj kvs) k dflt = (case map_of kvs k of None \<Rightarrow> Inr dflt | Some v \<Rightarrow> Inr v)"
| "dict_get _ k dflt = Inl AttributeError"

text \<open>
  The values a \<open>for\<close> loop runs through: the elements of a list, the characters of a
  string, the keys of a dict; nothing else is iterable.
\<close>

fun py_iter :: "json \<Rightarrow> exn + json list" where
  "py_iter (JList xs) = Inr xs"
| "py_iter (JStr s) = Inr (map (\<lambda>c. JStr [c]) s)"
| "py_iter (JObj kvs) = Inr (map (\<lambda>kv. JStr (fst kv)) kvs)"
| "py_iter _ = Inl TypeError"

definition is_image_href :: "string \<Rightarrow> bool" where
  "is_image_href href =
     (endswith (lower href) ''.jpg'' \<or> endswith (lower href) ''.jpeg'' \<or> endswith (lower href) ''.png'')"

text \<open>
  The loop of lines 207 to 210: the first asset whose \<open>href\<close> ends, in lower case, with
  one of the three suffixes stops the loop. \<open>asset['href']\<close> raises when the asset has no
  such key or is not a dict, \<open>.lower()\<close> when the value is not a string. The result is
  \<open>image_url\<close>, \<open>None\<close> when the loop ends without a match.
\<close>

fun find_image_url :: "json list \<Rightarrow> exn + json" where
  "find_image_url [] = Inr JNull"
| "find_image_url (asset # assets) =
     (case getitem_str asset ''href'' of
        Inl e \<Rightarrow> Inl e
      | Inr (JStr href) \<Rightarrow> if is_image_href href then Inr (JStr href) else find_image_url assets
      | Inr _ \<Rightarrow> Inl AttributeError)"

definition manifest_image_url :: "json \<Rightarrow> exn + json" where
  "manifest_image_url manifest =
     and_then (dict_get manifest ''collection'' (JObj [])) (\<lambda>collection.
     and_then (dict_get collection ''items'' (JList [])) (\<lambda>items.
     and_then (py_iter items) find_image_url))"

text \<open>The manifest whose assets have the given hrefs, in that order.\<close>

definition manifest_of :: "string list \<Rightarrow> json" where
  "manifest_of hrefs =
     JObj [(''collection'', JObj [(''items'', JList (map (\<lambda>h. JObj [(''href'', JStr h)]) hrefs))])]"

section \<open>The network\<close>

text \<open>
  A \<open>requests.get\<close> either raises a \<open>RequestException\<close> (no connection, time out) or
  returns a response: its status code, the document its text decodes to, if it is JSON,
  and its bytes.
\<close>

record response =
  status_code :: nat
  json_body :: "json option"
  content :: string

datatype reply = ConnectionFailed | Got response

text \<open>
  What \<open>with open(path, 'wb') as f: f.write(data)\<close> does: it completes, \<open>open\<close> raises and
  the path is untouched, or the write raises after some bytes.
\<close>

datatype write_outcome = WriteOk | OpenRaises | WriteRaises nat

fun write_file :: "write_outcome \<Rightarrow> string \<Rightarrow> string \<Rightarrow> (string \<rightharpoonup> string) \<Rightarrow> (exn + unit) \<times> (string \<rightharpoonup> string)" where
  "write_file WriteOk path data fs = (Inr (), fs(path \<mapsto> data))"
| "write_file OpenRaises path data fs = (Inl OSError, fs)"
| "write_file (WriteRaises n) path data fs = (Inl OSError, fs(path \<mapsto> take n data))"

section \<open>The script \<open>nasa_wallpaper_updater.py\<close>\<close>

text \<open>
  Lines 24 to 30 (and 334 to 340 of apiscript.py): the identifier of the first item, \<open>None\<close>
  when the list of items is empty.
\<close>

definition search_result :: "json \<Rightarrow> exn + json" where
  "search_result data =
     and_then (getitem_str data ''collection'') (\<lambda>collection.
     and_then (getitem_str collection ''items'') (\<lambda>items.
       if truthy items then
         and_then (getitem_first items) (\<lambda>item.
         and_then (getitem_str item ''data'') (\<lambda>d.
         and_then (getitem_first d) (\<lambda>d0. getitem_str d0 ''nasa_id'')))
       else Inr JNull))"

text \<open>Lines 40 to 46 (and 358 to 364 of apiscript.py): the \<open>href\<close> of the last asset.\<close>

definition asset_result :: "json \<Rightarrow> exn + json" where
  "asset_result data =
     and_then (getitem_str data ''collection'') (\<lambda>collection.
     and_then (getitem_str collection ''items'') (\<lambda>items.
       if truthy items then
         and_then (getitem_last items) (\<lambda>item. getitem_str item ''href'')
       else Inr JNull))"

text \<open>
  The three functions of the script make one request each and catch nothing, so that an
  exception leaves the function.
\<close>

definition updater_search_nasa_images :: "reply \<Rightarrow> exn + json" where
  "updater_search_nasa_images rep =
     (case rep of
        ConnectionFailed \<Rightarrow> Inl RequestException
      | Got r \<Rightarrow>
          if status_code r = 200 then
            (case json_body r of None \<Rightarrow> Inl JSONDecodeError | Some data \<Rightarrow> search_result data)
          else Inr JNull)"

definition updater_get_asset_url :: "reply \<Rightarrow> exn + json" where
  "updater_get_asset_url rep =
     (case rep of
        ConnectionFailed \<Rightarrow> Inl RequestException
      | Got r \<Rightarrow>
          if status_code r = 200 then
            (case json_body r of None \<Rightarrow> Inl JSONDecodeError | Some data \<Rightarrow> asset_result data)
          else Inr JNull)"

definition updater_download_image :: "reply \<Rightarrow> write_outcome \<Rightarrow> string \<Rightarrow> (string \<rightharpoonup> string) \<Rightarrow> (exn + json) \<times> (string \<rightharpoonup> string)" where
  "updater_download_image rep wr save_path fs =
     (case rep of
        ConnectionFailed \<Rightarrow> (Inl RequestException, fs)
      | Got r \<Rightarrow>
          if status_code r = 200 then
            (case write_file wr save_path (content r) fs of
               (Inl e, fs') \<Rightarrow> (Inl e, fs')
             | (Inr u, fs') \<Rightarrow> (Inr JNull, fs'))
          else (Inr JNull, fs))"

section \<open>The retrying functions of apiscript.py\<close>

text \<open>
  \<open>net k\<close> is what the request number \<open>k\<close> of a call meets. The functions catch
  \<open>requests.exceptions.RequestException\<close> only. Whether the exception that
  \<open>response.json()\<close> raises on a body that is not JSON is one depends on the installed
  \<open>requests\<close> (it is from version 2.27 on, and a plain \<open>ValueError\<close> before); the library
  is not part of the repository, so this is the parameter \<open>decode_error_caught\<close>.
  \<open>time.sleep\<close> is not modelled. The result comes with the number of requests made.
\<close>

function search_nasa_images_from :: "bool \<Rightarrow> (nat \<Rightarrow> reply) \<Rightarrow> nat \<Rightarrow> nat \<Rightarrow> (exn + json) \<times> nat" where
  "search_nasa_images_from decode_error_caught net retries attempt =
     (if attempt < retries then
        (case net attempt of
           ConnectionFailed \<Rightarrow> search_nasa_images_from decode_error_caught net retries (attempt + 1)
         | Got r \<Rightarrow>
             if status_code r = 200 then
               (case json_body r of
                  None \<Rightarrow>
                    if decode_error_caught
                    then search_nasa_images_from decode_error_caught net retries (attempt + 1)
                    else (Inl JSONDecodeError, attempt + 1)
                | Some data \<Rightarrow> (search_result data, attempt + 1))
             else search_nasa_images_from decode_error_caught net retries (attempt + 1))
      else (Inr JNull, attempt))"
  by pat_completeness auto
termination
  by (relation "measure (\<lambda>(c, net, retries, attempt). retries - attempt)") auto

declare search_nasa_images_from.simps [simp del]

definition search_nasa_images :: "bool \<Rightarrow> (nat \<Rightarrow> reply) \<Rightarrow> nat \<Rightarrow> (exn + json) \<times> nat" where
  "search_nasa_images decode_error_caught net retries =
     search_nasa_images_from decode_error_caught net retries 0"

function get_asset_url_from :: "bool \<Rightarrow> (nat \<Rightarrow> reply) \<Rightarrow> nat \<Rightarrow> nat \<Rightarrow> (exn + json) \<times> nat" where
  "get_asset_url_from decode_error_caught net retries attempt =
     (if attempt < retries then
        (case net attempt of
           ConnectionFailed \<Rightarrow> get_asset_url_from decode_error_caught net retries (attempt + 1)
         | Got r \<Rightarrow>
             if status_code r = 200 then
               (case json_body r of
                  None \<Rightarrow>
                    if decode_error_caught
                    then get_asset_url_from decode_error_caught net retries (attempt + 1)
                    else (Inl JSONDecodeError, attempt + 1)
                | Some data \<Rightarrow> (asset_result data, attempt + 1))
             else get_asset_url_from decode_error_caught net retries (attempt + 1))
      else (Inr JNull, attempt))"
  by pat_completeness auto
termination
  by (relation "measure (\<lambda>(c, net, retries, attempt). retries - attempt)") auto

declare get_asset_url_from.simps [simp del]

definition get_asset_url :: "bool \<Rightarrow> (nat \<Rightarrow> reply) \<Rightarrow> nat \<Rightarrow> (exn + json) \<times> nat" where
  "get_asset_url decode_error_caught net retries =
     get_asset_url_from decode_error_caught net retries 0"

text \<open>
  \<open>download_image\<close> writes the bytes of the first response with status 200 to \<open>save_path\<close>
  and returns; an \<open>OSError\<close> of the write is not a \<open>RequestException\<close> and leaves the
  function. The result comes with the number of requests made and the files.
\<close>

function download_image_from :: "(nat \<Rightarrow> reply) \<Rightarrow> write_outcome \<Rightarrow> string \<Rightarrow> nat \<Rightarrow> nat \<Rightarrow> (string \<rightharpoonup> string) \<Rightarrow> (exn + json) \<times> nat \<times> (string \<rightharpoonup> string)" where
  "download_image_from net wr save_path retries attempt fs =
     (if attempt < retries then
        (case net attempt of
           ConnectionFailed \<Rightarrow> download_image_from net wr save_path retries (attempt + 1) fs
         | Got r \<Rightarrow>
             if status_code r = 200 then
               (case write_file wr save_path (content r) fs of
                  (Inl e, fs') \<Rightarrow> (Inl e, attempt + 1, fs')
                | (Inr u, fs') \<Rightarrow> (Inr JNull, attempt + 1, fs'))
             else download_image_from net wr save_path retries (attempt + 1) fs)
      else (Inr JNull, attempt, fs))"
  by pat_completeness auto
termination
  by (relation "measure (\<lambda>(net, wr, save_path, retries, attempt, fs). retries - attempt)") auto

declare download_image_from.simps [simp del]

definition download_image :: "(nat \<Rightarrow> reply) \<Rightarrow> write_outcome \<Rightarrow> string \<Rightarrow> nat \<Rightarrow> (string \<rightharpoonup> string) \<Rightarrow> (exn + json) \<times> nat \<times> (string \<rightharpoonup> string)" where
  "download_image net wr save_path retries fs = download_image_from net wr save_path retries 0 fs"

text \<open>
  A failure that the loops retry whatever the library: no response, or a response whose
  status is not 200.
\<close>

fun transient_failure :: "reply \<Rightarrow> bool" where
  "transient_failure ConnectionFailed = True"
| "transient_failure (Got r) = (status_code r \<noteq> 200)"

text \<open>
  What \<open>search_nasa_images\<close> and \<open>get_asset_url\<close> answer with a further attempt: the two
  failures above and, when the decoding error is caught, a response with status 200 whose
  body is not JSON.
\<close>

fun retried :: "bool \<Rightarrow> reply \<Rightarrow> bool" where
  "retried decode_error_caught ConnectionFailed = True"
| "retried decode_error_caught (Got r) =
     (status_code r \<noteq> 200 \<or> (decode_error_caught \<and> json_body r = None))"

section \<open>Downloading in \<open>KDENASAWallpaper\<close> (apiscript.py)\<close>

text \<open>
  \<open>shutil.move\<close> renames the file, or copies it and removes the source when the
  destination is on another file system. When it raises, either nothing has reached the
  destination or the copy has stopped after some bytes; the source is still there.
\<close>

datatype move_outcome = Moved | MoveRaises "nat option"

fun shutil_move :: "move_outcome \<Rightarrow> string \<Rightarrow> string \<Rightarrow> (string \<rightharpoonup> string) \<Rightarrow> (exn + unit) \<times> (string \<rightharpoonup> string)" where
  "shutil_move Moved src dst fs =
     (case fs src of
        None \<Rightarrow> (Inl OSError, fs)
      | Some data \<Rightarrow> (Inr (), (fs(dst \<mapsto> data))(src := None)))"
| "shutil_move (MoveRaises None) src dst fs = (Inl OSError, fs)"
| "shutil_move (MoveRaises (Some n)) src dst fs =
     (case fs src of
        None \<Rightarrow> (Inl OSError, fs)
      | Some data \<Rightarrow> (Inl OSError, fs(dst \<mapsto> take n data)))"

text \<open>
  What one call of \<open>download_wallpaper\<close> meets: the path of the temporary file that
  \<open>NamedTemporaryFile\<close> creates (\<open>None\<close> when it raises), the reply to the request, the
  outcome of writing the temporary file, the clock reading formatted by
  \<open>strftime("%Y%m%d_%H%M%S")\<close>, the outcome of the move and of \<open>os.chmod\<close>, and what
  \<open>str.lower\<close> of the interpreter gives on strings that are not ASCII.
\<close>

record download_env =
  temp_file :: "string option"
  http :: reply
  temp_write :: write_outcome
  timestamp :: string
  move :: move_outcome
  chmod_ok :: bool
  unicode_lower :: "string \<Rightarrow> string"

text \<open>
  The operations on files that a call performs, in the order of the call: the creation of
  the temporary file, \<open>open(path, 'wb')\<close> with the write of the bytes, \<open>shutil.move\<close>,
  \<open>os.chmod\<close> and \<open>unlink\<close>. An operation that raises is listed too.
\<close>

datatype file_op =
    Create string
  | Write string string
  | Move string string
  | Chmod string
  | Unlink string

text \<open>
  The handler of lines 176 to 180: log, remove the temporary file, return \<open>None\<close>.
  \<open>unlink\<close> is taken to succeed.
\<close>

definition download_failed :: "string \<Rightarrow> world \<Rightarrow> string option \<times> world" where
  "download_failed temp_path w =
     (None, w\<lparr>files := (files w)(temp_path := None), log := log w @ [Error ''Download error'']\<rparr>)"

text \<open>Line 166: \<open>image_url.split('.')[-1].lower()\<close>.\<close>

definition file_extension :: "(string \<Rightarrow> string) \<Rightarrow> string \<Rightarrow> string" where
  "file_extension ul image_url = str_lower ul (last (py_split CHR ''.'' image_url))"

text \<open>
  \<open>download_wallpaper\<close>, with the file operations it performs. \<open>raise_for_status\<close> raises
  on the status codes 400 to 599. \<open>wallpaper_dir\<close> is \<open>str\<close> of the attribute of that name and
  \<open>nasa_id\<close> a string; \<open>file_path\<close> is \<open>str(self.wallpaper_dir / filename)\<close>.
\<close>

definition download_wallpaper_run :: "download_env \<Rightarrow> string \<Rightarrow> string \<Rightarrow> string \<Rightarrow> world \<Rightarrow> (string option \<times> world) \<times> file_op list" where
  "download_wallpaper_run env wallpaper_dir image_url nasa_id w =
     (case temp_file env of
        None \<Rightarrow> ((None, w\<lparr>log := log w @ [Error ''Download error'']\<rparr>), [])
      | Some temp_path \<Rightarrow>
          (let w1 = w\<lparr>files := (files w)(temp_path \<mapsto> [])\<rparr> in
           case http env of
             ConnectionFailed \<Rightarrow>
               (download_failed temp_path w1, [Create temp_path, Unlink temp_path])
           | Got r \<Rightarrow>
               if 400 \<le> status_code r \<and> status_code r < 600 then
                 (download_failed temp_path w1, [Create temp_path, Unlink temp_path])
               else
                 (case write_file (temp_write env) temp_path (content r) (files w1) of
                    (Inl e, fs2) \<Rightarrow>
                      (download_failed temp_path (w1\<lparr>files := fs2\<rparr>),
                       [Create temp_path, Write temp_path (content r), Unlink temp_path])
                  | (Inr u, fs2) \<Rightarrow>
                      (let filename = ''nasa_'' @ nasa_id @ ''_'' @ timestamp env @ ''.''
                                        @ file_extension (unicode_lower env) image_url;
                           file_path = path_join wallpaper_dir filename
                       in case shutil_move (move env) temp_path file_path fs2 of
                            (Inl e, fs3) \<Rightarrow>
                              (download_failed temp_path (w1\<lparr>files := fs3\<rparr>),
                               [Create temp_path, Write temp_path (content r),
                                Move temp_path file_path, Unlink temp_path])
                          | (Inr u, fs3) \<Rightarrow>
                              if chmod_ok env then
                                ((Some file_path, w1\<lparr>files := fs3\<rparr>),
                                 [Create temp_path, Write temp_path (content r),
                                  Move temp_path file_path, Chmod file_path])
                              else
                                (download_failed temp_path (w1\<lparr>files := fs3\<rparr>),
                                 [Create temp_path, Write temp_path (content r),
                                  Move temp_path file_path, Chmod file_path, Unlink temp_path])))))"

text \<open>What \<open>download_wallpaper\<close> returns and the machine it leaves.\<close>

definition download_wallpaper :: "download_env \<Rightarrow> string \<Rightarrow> string \<Rightarrow> string \<Rightarrow> world \<Rightarrow> string option \<times> world" where
  "download_wallpaper env wallpaper_dir image_url nasa_id w =
     fst (download_wallpaper_run env wallpaper_dir image_url nasa_id w)"

text \<open>
  Lines 216 to 218, the end of the cycle \<open>fetch_and_set_wallpaper\<close>: what comes before
  (the search and the manifest) only reads from the network and decides the URL and the
  identifier, or ends the cycle.
\<close>

definition download_and_set :: "download_env \<Rightarrow> string \<Rightarrow> bool \<Rightarrow> dump_outcome \<Rightarrow> string \<Rightarrow> string \<Rightarrow> string \<Rightarrow> world \<Rightarrow> world" where
  "download_and_set env wallpaper_dir script_ok dump now image_url nasa_id w =
     (case download_wallpaper env wallpaper_dir image_url nasa_id w of
        (None, w') \<Rightarrow> w'
      | (Some wallpaper_path, w') \<Rightarrow>
          if wallpaper_path \<noteq> [] then set_wallpaper script_ok dump now wallpaper_path w' else w')"

section \<open>The extension of a URL's last path segment, as the specification words it\<close>

text \<open>
  The path of a URL ends where the query (\<open>?\<close>) or the fragment (\<open>#\<close>) begins; its last
  segment is what follows the last slash; the extension of a segment is what follows its
  last dot, if it has one.
\<close>

definition url_path :: "string \<Rightarrow> string" where
  "url_path url = takeWhile (\<lambda>c. c \<noteq> CHR ''?'' \<and> c \<noteq> CHR ''#'') url"

definition final_segment :: "string \<Rightarrow> string" where
  "final_segment path = last (py_split CHR ''/'' path)"

definition spec_extension :: "(string \<Rightarrow> string) \<Rightarrow> string \<Rightarrow> string option" where
  "spec_extension ul url =
     (let seg = final_segment (url_path url)
      in if CHR ''.'' \<in> set seg then Some (str_lower ul (last (py_split CHR ''.'' seg))) else None)"

text \<open>
  A call of \<open>download_wallpaper\<close> that meets no failure and receives the given bytes. It
  is used with ASCII strings only, for which \<open>unicode_lower\<close> is not asked.
\<close>

definition undisturbed :: "string \<Rightarrow> download_env" where
  "undisturbed bytes =
     \<lparr>temp_file = Some ''/tmp/tmpk3v9x1'',
      http = Got \<lparr>status_code = 200, json_body = None, content = bytes\<rparr>,
      temp_write = WriteOk,
      timestamp = ''20240501_100000'',
      move = Moved,
      chmod_ok = True,
      unicode_lower = (\<lambda>s. s)\<rparr>"

section \<open>Properties of the history store\<close>

lemma last_50_rev: "last_50 xs = rev (take 50 (rev xs))"
  by (simp add: last_50_def take_rev)

lemma last_50_absorb: "last_50 (last_50 xs @ ys) = last_50 (xs @ ys)"
  by (simp add: last_50_rev min_def)

lemma length_last_50: "length (last_50 xs) = min 50 (length xs)"
  by (simp add: last_50_def)

lemma stored_save:
  assumes "stored w = Some xs"
  shows "stored (save_wallpaper_history DumpOk now p w) = Some (last_50 (xs @ [history_entry p now]))"
proof (cases "history_file w")
  case Missing
  with assms show ?thesis by (simp add: stored_def save_wallpaper_history_def)
next
  case Corrupt
  with assms show ?thesis by (simp add: stored_def)
next
  case (Doc v)
  with assms have "v = JList xs"
    by (cases v) (simp_all add: stored_def)
  with Doc show ?thesis by (simp add: stored_def save_wallpaper_history_def)
qed

lemma stored_record_all:
  "stored w = Some xs \<Longrightarrow> ops \<noteq> [] \<Longrightarrow> stored (record_all ops w) = Some (last_50 (xs @ entries_of ops))"
proof (induction ops arbitrary: w xs)
  case Nil
  then show ?case by simp
next
  case (Cons op ops)
  obtain p t where op: "op = (p, t)" by (cases op)
  let ?w = "save_wallpaper_history DumpOk t p w"
  have step: "stored ?w = Some (last_50 (xs @ [history_entry p t]))"
    using Cons.prems(1) by (rule stored_save)
  have unfold: "record_all (op # ops) w = record_all ops ?w"
    by (simp add: record_all_def op)
  show ?case
  proof (cases "ops = []")
    case True
    with step unfold show ?thesis by (simp add: record_all_def entries_of_def op)
  next
    case False
    from Cons.IH [OF step False] unfold show ?thesis
      by (simp add: entries_of_def op last_50_absorb)
  qed
qed

lemma history_file_record_all:
  assumes "stored w = Some xs" and "ops \<noteq> []"
  shows "history_file (record_all ops w) = Doc (JList (last_50 (xs @ entries_of ops)))"
proof -
  let ?ys = "last_50 (xs @ entries_of ops)"
  have st: "stored (record_all ops w) = Some ?ys"
    using assms by (rule stored_record_all)
  have "entries_of ops \<noteq> []"
    using assms(2) by (simp add: entries_of_def)
  then have "0 < length ?ys"
    by (simp add: length_last_50)
  then have ne: "?ys \<noteq> []"
    by auto
  show ?thesis
  proof (cases "history_file (record_all ops w)")
    case Missing
    with st ne show ?thesis by (simp add: stored_def)
  next
    case Corrupt
    with st show ?thesis by (simp add: stored_def)
  next
    case (Doc v)
    with st have "v = JList ?ys"
      by (cases v) (simp_all add: stored_def)
    with Doc show ?thesis by simp
  qed
qed

text \<open>
  C1. Whenever the list that \<open>save_wallpaper_history\<close> has built (the entries it found
  followed by the ones recorded since) is longer than 50, the file holds exactly 50
  entries afterwards: the last 50 of that list, in the order in which they were
  appended, so that the oldest ones are the ones dropped.
\<close>

theorem history_capped_at_50:
  assumes "stored w = Some xs" and "ops \<noteq> []" and "50 < length (xs @ entries_of ops)"
  shows "history_file (record_all ops w) =
           Doc (JList (drop (length (xs @ entries_of ops) - 50) (xs @ entries_of ops)))
         \<and> length (drop (length (xs @ entries_of ops) - 50) (xs @ entries_of ops)) = 50"
proof -
  have "history_file (record_all ops w) = Doc (JList (last_50 (xs @ entries_of ops)))"
    using assms(1,2) by (rule history_file_record_all)
  moreover have "length (drop (length (xs @ entries_of ops) - 50) (xs @ entries_of ops)) = 50"
    using assms(3) by simp
  ultimately show ?thesis
    by (simp only: last_50_def simp_thms)
qed

theorem history_capped_at_50_witness:
  "history_file
     (record_all [(''/w/new.jpg'', ''2024-05-01T10:00:00'')]
        (fresh_world\<lparr>history_file := Doc (JList (JStr ''oldest'' # replicate 49 (JStr ''old'')))\<rparr>)) =
   Doc (JList (replicate 49 (JStr ''old'') @ [history_entry ''/w/new.jpg'' ''2024-05-01T10:00:00'']))"
  using history_capped_at_50
    [of "fresh_world\<lparr>history_file := Doc (JList (JStr ''oldest'' # replicate 49 (JStr ''old'')))\<rparr>"
        "JStr ''oldest'' # replicate 49 (JStr ''old'')"
        "[(''/w/new.jpg'', ''2024-05-01T10:00:00'')]"]
  by (simp add: stored_def entries_of_def)

text \<open>
  C6. Starting with no history file, recording N \<open>\<le>\<close> 50 wallpapers one after the other
  and reading the file the way the class reads it gives exactly the N entries, in the
  order of the calls; and reading when there is no file gives the empty list, not an
  exception.
\<close>

theorem load_returns_recorded_entries:
  assumes "history_file w = Missing" and "length ops \<le> 50"
  shows "load_history (history_file (record_all ops w)) = Inr (JList (entries_of ops))
         \<and> load_history Missing = Inr (JList [])"
proof (cases "ops = []")
  case True
  with assms(1) show ?thesis by (simp add: record_all_def entries_of_def)
next
  case False
  have "stored w = Some []"
    using assms(1) by (simp add: stored_def)
  from history_file_record_all [OF this False]
  have "history_file (record_all ops w) = Doc (JList (last_50 (entries_of ops)))"
    by simp
  moreover have "last_50 (entries_of ops) = entries_of ops"
    using assms(2) by (simp add: last_50_def entries_of_def)
  ultimately show ?thesis by simp
qed

theorem load_returns_recorded_entries_witness:
  "load_history (history_file
     (record_all [(''/w/a.jpg'', ''2024-05-01T10:00:00''), (''/w/b.png'', ''2024-05-01T16:00:00'')]
        fresh_world)) =
   Inr (JList [history_entry ''/w/a.jpg'' ''2024-05-01T10:00:00'',
               history_entry ''/w/b.png'' ''2024-05-01T16:00:00''])"
  using load_returns_recorded_entries
    [of fresh_world "[(''/w/a.jpg'', ''2024-05-01T10:00:00''), (''/w/b.png'', ''2024-05-01T16:00:00'')]"]
  by (simp add: fresh_world_def entries_of_def)

text \<open>
  C10, as the code has it. When the call fails before it writes (the file cannot be
  decoded, the document is not a list so that \<open>append\<close> raises, or the file cannot be
  opened for writing), the failure is logged and the history file is what it was.
\<close>

theorem save_history_failure_before_write:
  assumes "history_file w = Corrupt
           \<or> (\<exists>v. history_file w = Doc v \<and> (\<forall>xs. v \<noteq> JList xs))
           \<or> dump = DumpOpenRaises"
  shows "save_wallpaper_history dump now p w = save_failed w
         \<and> history_file (save_wallpaper_history dump now p w) = history_file w"
proof -
  have "save_wallpaper_history dump now p w = save_failed w"
  proof (cases "history_file w")
    case Missing
    with assms show ?thesis by (simp add: save_wallpaper_history_def)
  next
    case Corrupt
    then show ?thesis by (simp add: save_wallpaper_history_def)
  next
    case (Doc v)
    show ?thesis
    proof (cases "\<exists>xs. v = JList xs")
      case True
      with Doc assms show ?thesis by (auto simp add: save_wallpaper_history_def)
    next
      case False
      with Doc show ?thesis by (cases v) (simp_all add: save_wallpaper_history_def)
    qed
  qed
  then show ?thesis by (simp add: save_failed_def)
qed

theorem save_history_failure_before_write_witness:
  "save_wallpaper_history DumpOk ''2024-05-01T10:00:00'' ''/w/a.jpg''
     (fresh_world\<lparr>history_file := Doc (JObj [(''path'', JStr ''/w/old.jpg'')])\<rparr>) =
   save_failed (fresh_world\<lparr>history_file := Doc (JObj [(''path'', JStr ''/w/old.jpg'')])\<rparr>)
   \<and> history_file (save_wallpaper_history DumpOk ''2024-05-01T10:00:00'' ''/w/a.jpg''
        (fresh_world\<lparr>history_file := Doc (JObj [(''path'', JStr ''/w/old.jpg'')])\<rparr>)) =
      Doc (JObj [(''path'', JStr ''/w/old.jpg'')])"
  using save_history_failure_before_write
    [of "fresh_world\<lparr>history_file := Doc (JObj [(''path'', JStr ''/w/old.jpg'')])\<rparr>"
        DumpOk "''2024-05-01T10:00:00''" "''/w/a.jpg''"]
  by (simp add: save_failed_def)

text \<open>
  C10, as stated, fails when the step that fails is the write itself: the file has been
  opened for writing, hence truncated, before \<open>json.dump\<close> raises. The failure is logged
  and the file no longer holds the history it held.
\<close>

theorem save_history_not_atomic_counterexample:
  "log (save_wallpaper_history DumpRaises ''2024-05-01T10:00:00'' ''/w/a.jpg''
          (fresh_world\<lparr>history_file := Doc (JList [history_entry ''/w/old.jpg'' ''2024-04-30T10:00:00''])\<rparr>)) =
     [Error ''Failed to save wallpaper history'']
   \<and> history_file (save_wallpaper_history DumpRaises ''2024-05-01T10:00:00'' ''/w/a.jpg''
          (fresh_world\<lparr>history_file := Doc (JList [history_entry ''/w/old.jpg'' ''2024-04-30T10:00:00''])\<rparr>)) \<noteq>
     history_file (fresh_world\<lparr>history_file := Doc (JList [history_entry ''/w/old.jpg'' ''2024-04-30T10:00:00''])\<rparr>)"
  by (simp add: save_wallpaper_history_def save_failed_def fresh_world_def)

section \<open>Choosing the image of a manifest\<close>

lemma find_image_url_hrefs:
  "find_image_url (map (\<lambda>h. JObj [(''href'', JStr h)]) hrefs) =
     (case find is_image_href hrefs of None \<Rightarrow> Inr JNull | Some h \<Rightarrow> Inr (JStr h))"
  by (induction hrefs) simp_all

lemma manifest_image_url_find:
  "manifest_image_url (manifest_of hrefs) =
     (case find is_image_href hrefs of None \<Rightarrow> Inr JNull | Some h \<Rightarrow> Inr (JStr h))"
  by (simp add: manifest_image_url_def manifest_of_def find_image_url_hrefs)

lemma asset_result_manifest:
  "asset_result (manifest_of hrefs) = (if hrefs = [] then Inr JNull else Inr (JStr (last hrefs)))"
  by (simp add: asset_result_def manifest_of_def last_map)

text \<open>
  C2, as the code has it. In \<open>fetch_and_set_wallpaper\<close> the image of a manifest is the
  first href that ends, in lower case, with \<open>.jpg\<close>, \<open>.jpeg\<close> or \<open>.png\<close>, and there is none
  (\<open>None\<close>) exactly when no href does. \<open>get_asset_url\<close> of \<open>nasa_wallpaper_updater.py\<close>
  answers with the last href of the manifest, whatever its extension, and with \<open>None\<close> only
  for the empty manifest. Both are functions of the manifest.
\<close>

theorem manifest_selection:
  "(manifest_image_url (manifest_of hrefs) = Inr (JStr h) \<longleftrightarrow>
      (\<exists>i<length hrefs. hrefs ! i = h \<and> is_image_href h \<and> (\<forall>j<i. \<not> is_image_href (hrefs ! j))))
   \<and> (manifest_image_url (manifest_of hrefs) = Inr JNull \<longleftrightarrow> (\<forall>h\<in>set hrefs. \<not> is_image_href h))
   \<and> updater_get_asset_url (Got \<lparr>status_code = 200, json_body = Some (manifest_of hrefs), content = body\<rparr>) =
       (if hrefs = [] then Inr JNull else Inr (JStr (last hrefs)))"
proof -
  have first: "manifest_image_url (manifest_of hrefs) = Inr (JStr h) \<longleftrightarrow>
      (\<exists>i<length hrefs. hrefs ! i = h \<and> is_image_href h \<and> (\<forall>j<i. \<not> is_image_href (hrefs ! j)))"
  proof (cases "find is_image_href hrefs")
    case None
    then have "manifest_image_url (manifest_of hrefs) = Inr JNull"
      by (simp add: manifest_image_url_find)
    moreover have "\<forall>i<length hrefs. \<not> is_image_href (hrefs ! i)"
      using None by (simp add: find_None_iff)
    ultimately show ?thesis by auto
  next
    case (Some h')
    then have "manifest_image_url (manifest_of hrefs) = Inr (JStr h) \<longleftrightarrow> find is_image_href hrefs = Some h"
      by (simp add: manifest_image_url_find)
    then show ?thesis
      by (simp only: find_Some_iff) blast
  qed
  have none: "manifest_image_url (manifest_of hrefs) = Inr JNull \<longleftrightarrow> (\<forall>h\<in>set hrefs. \<not> is_image_href h)"
  proof (cases "find is_image_href hrefs")
    case None
    then have "manifest_image_url (manifest_of hrefs) = Inr JNull"
      by (simp add: manifest_image_url_find)
    moreover have "\<forall>h\<in>set hrefs. \<not> is_image_href h"
      using None by (simp add: find_None_iff)
    ultimately show ?thesis by simp
  next
    case (Some h')
    then have "manifest_image_url (manifest_of hrefs) \<noteq> Inr JNull"
      by (simp add: manifest_image_url_find)
    moreover have "\<exists>h\<in>set hrefs. is_image_href h"
      using Some by (auto simp add: find_Some_iff)
    ultimately show ?thesis by blast
  qed
  have last: "updater_get_asset_url (Got \<lparr>status_code = 200, json_body = Some (manifest_of hrefs), content = body\<rparr>) =
       (if hrefs = [] then Inr JNull else Inr (JStr (last hrefs)))"
    by (simp add: updater_get_asset_url_def asset_result_manifest)
  from first none last show ?thesis by blast
qed

theorem manifest_selection_witness:
  "manifest_image_url (manifest_of [''https://a/x~thumb.tif'', ''https://a/x~orig.JPG'', ''https://a/x~small.png'']) =
     Inr (JStr ''https://a/x~orig.JPG'')
   \<and> updater_get_asset_url
       (Got \<lparr>status_code = 200,
             json_body = Some (manifest_of [''https://a/x~thumb.tif'', ''https://a/x~orig.JPG'', ''https://a/x~small.png'']),
             content = []\<rparr>) =
     Inr (JStr ''https://a/x~small.png'')"
proof -
  have "\<exists>i<length [''https://a/x~thumb.tif'', ''https://a/x~orig.JPG'', ''https://a/x~small.png''].
          [''https://a/x~thumb.tif'', ''https://a/x~orig.JPG'', ''https://a/x~small.png''] ! i = ''https://a/x~orig.JPG''
          \<and> is_image_href ''https://a/x~orig.JPG''
          \<and> (\<forall>j<i. \<not> is_image_href ([''https://a/x~thumb.tif'', ''https://a/x~orig.JPG'', ''https://a/x~small.png''] ! j))"
    by (rule exI [of _ 1]) (simp add: is_image_href_def endswith_def lower_def lower_char_def)
  then show ?thesis
    using manifest_selection
      [of "[''https://a/x~thumb.tif'', ''https://a/x~orig.JPG'', ''https://a/x~small.png'']"
          "''https://a/x~orig.JPG''" "[]"]
    by simp
qed

text \<open>
  C2, as stated, fails on \<open>get_asset_url\<close>: the first href of the manifest is an image by
  its extension, and the function answers with the last one, which is not.
\<close>

theorem get_asset_url_takes_last_counterexample:
  "updater_get_asset_url
     (Got \<lparr>status_code = 200,
           json_body = Some (manifest_of [''https://a/x~orig.jpg'', ''https://a/x/metadata.json'']),
           content = []\<rparr>) =
     Inr (JStr ''https://a/x/metadata.json'')
   \<and> is_image_href ''https://a/x~orig.jpg''
   \<and> \<not> is_image_href ''https://a/x/metadata.json''"
  by (simp add: updater_get_asset_url_def asset_result_def manifest_of_def
        is_image_href_def endswith_def lower_def lower_char_def)

section \<open>Applying a wallpaper and the history\<close>

lemma download_wallpaper_history:
  "history_file (snd (download_wallpaper env dir url nid w)) = history_file w"
  by (simp add: download_wallpaper_def download_wallpaper_run_def download_failed_def Let_def
        split: option.split reply.split prod.split sum.split)

text \<open>
  C5. When \<open>evaluateScript\<close> raises, \<open>set_wallpaper\<close> only logs the failure:
  \<open>save_wallpaper_history\<close> is not reached, whatever the clock and the disk would have
  done. Over the end of the cycle (download, then apply) the history file is the one
  from before the cycle, and so is what reading it gives.
\<close>

theorem failed_apply_keeps_history:
  "set_wallpaper False dump now image_path w = w\<lparr>log := log w @ [Error ''Failed to set wallpaper'']\<rparr>
   \<and> history_file (download_and_set env dir False dump now url nid w) = history_file w
   \<and> load_history (history_file (download_and_set env dir False dump now url nid w)) =
       load_history (history_file w)"
proof -
  have apply_fails: "set_wallpaper False d t p v = v\<lparr>log := log v @ [Error ''Failed to set wallpaper'']\<rparr>" for d t p v
    by (simp add: set_wallpaper_def)
  have "history_file (download_and_set env dir False dump now url nid w) =
        history_file (snd (download_wallpaper env dir url nid w))"
    by (cases "download_wallpaper env dir url nid w")
       (simp add: download_and_set_def apply_fails split: option.split)
  then have "history_file (download_and_set env dir False dump now url nid w) = history_file w"
    by (simp add: download_wallpaper_history)
  with apply_fails show ?thesis by simp
qed

section \<open>Downloading\<close>

lemma py_split_not_Nil: "py_split sep s \<noteq> []"
  by (induction s) (auto split: list.split)

lemma py_split_without_sep: "sep \<notin> set s \<Longrightarrow> py_split sep s = [s]"
  by (induction s) auto

lemma length_py_split: "length (py_split sep s) = Suc (length (filter (\<lambda>c. c = sep) s))"
  by (induction s) (auto split: list.split simp add: py_split_not_Nil)

lemma last_py_split_Cons: "sep \<in> set s \<Longrightarrow> last (py_split sep (c # s)) = last (py_split sep s)"
proof -
  assume "sep \<in> set s"
  then have "filter (\<lambda>c. c = sep) s \<noteq> []"
    by (auto simp add: filter_empty_conv)
  then have "2 \<le> length (py_split sep s)"
    by (cases "filter (\<lambda>c. c = sep) s") (simp_all add: length_py_split)
  then obtain seg seg' segs where "py_split sep s = seg # seg' # segs"
    by (cases "py_split sep s"; cases "tl (py_split sep s)") auto
  then show ?thesis by simp
qed

lemma last_py_split_after_sep:
  "last (py_split sep (a @ sep # b)) = last (py_split sep b)"
proof (induction a)
  case Nil
  show ?case by (simp add: py_split_not_Nil)
next
  case (Cons c a)
  have "sep \<in> set (a @ sep # b)" by simp
  then have "last (py_split sep (c # a @ sep # b)) = last (py_split sep (a @ sep # b))"
    by (rule last_py_split_Cons)
  with Cons show ?case by simp
qed

lemma last_py_split_suffix:
  "sep \<notin> set b \<Longrightarrow> last (py_split sep (a @ sep # b)) = b"
  by (simp add: last_py_split_after_sep py_split_without_sep)

lemma extension_in_final_segment:
  assumes "CHR ''.'' \<in> set (final_segment url)"
  shows "last (py_split CHR ''.'' (final_segment url)) = last (py_split CHR ''.'' url)"
proof (cases "CHR ''/'' \<in> set url")
  case False
  then show ?thesis by (simp add: final_segment_def py_split_without_sep)
next
  case True
  then obtain a b where url: "url = a @ CHR ''/'' # b" and b: "CHR ''/'' \<notin> set b"
    by (auto dest: split_list_last)
  then have seg: "final_segment url = b"
    by (simp add: final_segment_def last_py_split_suffix)
  with assms obtain b1 b2 where b12: "b = b1 @ CHR ''.'' # b2" and b2: "CHR ''.'' \<notin> set b2"
    by (auto dest: split_list_last)
  have "last (py_split CHR ''.'' b) = b2"
    using b2 by (simp add: b12 last_py_split_suffix)
  moreover have "url = (a @ CHR ''/'' # b1) @ CHR ''.'' # b2"
    by (simp add: url b12)
  then have "last (py_split CHR ''.'' url) = b2"
    using b2 last_py_split_suffix by metis
  ultimately show ?thesis by (simp add: seg)
qed

lemma url_path_plain:
  "CHR ''?'' \<notin> set url \<Longrightarrow> CHR ''#'' \<notin> set url \<Longrightarrow> url_path url = url"
  by (simp add: url_path_def takeWhile_eq_all_conv) metis

lemma file_extension_is_spec_extension:
  assumes "CHR ''?'' \<notin> set url" and "CHR ''#'' \<notin> set url"
    and "CHR ''.'' \<in> set (final_segment url)"
  shows "spec_extension ul url = Some (file_extension ul url)"
  using assms
  by (simp add: spec_extension_def url_path_plain file_extension_def extension_in_final_segment)

lemma lower_char_slash: "lower_char c = CHR ''/'' \<Longrightarrow> c = CHR ''/''"
proof (cases "map_of (zip ''ABCDEFGHIJKLMNOPQRSTUVWXYZ'' ''abcdefghijklmnopqrstuvwxyz'') c")
  case None
  assume "lower_char c = CHR ''/''"
  with None show ?thesis by (simp add: lower_char_def)
next
  case (Some l)
  then have "(c, l) \<in> set (zip ''ABCDEFGHIJKLMNOPQRSTUVWXYZ'' ''abcdefghijklmnopqrstuvwxyz'')"
    by (rule map_of_SomeD)
  then have "l \<in> set ''abcdefghijklmnopqrstuvwxyz''"
    by (rule set_zip_rightD)
  then have "l \<noteq> CHR ''/''" by auto
  moreover assume "lower_char c = CHR ''/''"
  ultimately show ?thesis using Some by (simp add: lower_char_def)
qed

lemma lower_without_slash: "CHR ''/'' \<notin> set s \<Longrightarrow> CHR ''/'' \<notin> set (lower s)"
  by (auto simp add: lower_def dest: lower_char_slash [OF sym])

lemma join_slash_snoc: "names \<noteq> [] \<Longrightarrow> join_slash (names @ [name]) = join_slash names @ ''/'' @ name"
  by (induction names rule: join_slash.induct) simp_all

lemma path_anchor_relative: "name \<noteq> [] \<Longrightarrow> hd name \<noteq> CHR ''/'' \<Longrightarrow> path_anchor name = []"
  by (cases name) (simp_all add: path_anchor_def)

lemma path_join_plain:
  assumes "CHR ''/'' \<notin> set name" and "name \<noteq> []" and "name \<noteq> ''.''" and "path_names dir \<noteq> []"
  shows "path_join dir name = path_str (path_anchor dir) (path_names dir) @ ''/'' @ name"
proof -
  have "hd name \<noteq> CHR ''/''"
    using assms(1,2) by (cases name) auto
  with assms(2) have anchor: "path_anchor name = []"
    by (rule path_anchor_relative)
  have names: "path_names name = [name]"
    using assms(1,2,3) by (simp add: path_names_def py_split_without_sep)
  show ?thesis
    using assms(4) by (simp add: path_join_def anchor names path_str_def join_slash_snoc)
qed

lemma download_wallpaper_Some:
  assumes "download_wallpaper env dir url nid w = (Some p, w')"
  shows "\<exists>t r. temp_file env = Some t \<and> http env = Got r
           \<and> \<not> (400 \<le> status_code r \<and> status_code r < 600)
           \<and> temp_write env = WriteOk \<and> move env = Moved \<and> chmod_ok env
           \<and> p = path_join dir (''nasa_'' @ nid @ ''_'' @ timestamp env @ ''.''
                                   @ file_extension (unicode_lower env) url)
           \<and> w' = w\<lparr>files := ((files w)(t \<mapsto> content r, p \<mapsto> content r))(t := None)\<rparr>
           \<and> snd (download_wallpaper_run env dir url nid w) =
               [Create t, Write t (content r), Move t p, Chmod p]"
proof -
  note defs = download_wallpaper_def download_wallpaper_run_def download_failed_def Let_def
  from assms obtain t where t: "temp_file env = Some t"
    by (cases "temp_file env") (auto simp add: defs)
  from assms t obtain r where r: "http env = Got r"
    by (cases "http env") (auto simp add: defs)
  from assms t r have st: "\<not> (400 \<le> status_code r \<and> status_code r < 600)"
    by (auto simp add: defs)
  from assms t r st have wr: "temp_write env = WriteOk"
    by (cases "temp_write env") (auto simp add: defs)
  have mv: "move env = Moved"
  proof (cases "move env")
    case Moved
    then show ?thesis .
  next
    case (MoveRaises n)
    with assms t r st wr show ?thesis
      by (cases n) (auto simp add: defs)
  qed
  from assms t r st wr mv have "chmod_ok env"
    by (auto simp add: defs split: if_splits)
  with assms t r st wr mv show ?thesis
    by (auto simp add: defs)
qed

lemma download_wallpaper_None_temp:
  assumes "temp_file env = Some t" and "fst (download_wallpaper env dir url nid w) = None"
  shows "files (snd (download_wallpaper env dir url nid w)) t = None"
  using assms
  by (auto simp add: download_wallpaper_def download_wallpaper_run_def download_failed_def Let_def
        split: reply.splits prod.splits sum.splits if_splits)

text \<open>
  C4, as the code has it. In \<open>download_wallpaper\<close>, when the request fails, the status is
  an error, the temporary file cannot be written in full or the move raises before
  anything reaches the destination, the call returns \<open>None\<close> and the files are the ones
  from before the call: nothing at the final path, no temporary file. Whenever the call
  returns \<open>None\<close> the temporary file is gone.
\<close>

theorem download_wallpaper_failure_cleans_up:
  assumes "temp_file env = Some t" and "files w t = None"
    and "http env = ConnectionFailed
         \<or> (\<exists>r. http env = Got r
                \<and> (400 \<le> status_code r \<and> status_code r < 600
                    \<or> temp_write env \<noteq> WriteOk
                    \<or> move env = MoveRaises None))"
  shows "download_wallpaper env dir url nid w = (None, w\<lparr>log := log w @ [Error ''Download error'']\<rparr>)
         \<and> (\<forall>env'. temp_file env' = Some t \<longrightarrow> fst (download_wallpaper env' dir url nid w) = None
               \<longrightarrow> files (snd (download_wallpaper env' dir url nid w)) t = None)"
proof -
  have restore: "(files w)(t := None) = files w"
    using assms(2) by (simp add: fun_upd_idem)
  have "download_wallpaper env dir url nid w = (None, w\<lparr>log := log w @ [Error ''Download error'']\<rparr>)"
  proof (cases "http env")
    case ConnectionFailed
    with assms(1) restore show ?thesis
      by (simp add: download_wallpaper_def download_wallpaper_run_def download_failed_def Let_def)
  next
    case (Got r)
    show ?thesis
    proof (cases "400 \<le> status_code r \<and> status_code r < 600")
      case True
      with Got assms(1) restore show ?thesis
        by (simp add: download_wallpaper_def download_wallpaper_run_def download_failed_def Let_def)
    next
      case False
      show ?thesis
      proof (cases "temp_write env")
        case WriteOk
        with Got False assms(3) have "move env = MoveRaises None" by auto
        with WriteOk Got False assms(1) restore show ?thesis
          by (simp add: download_wallpaper_def download_wallpaper_run_def download_failed_def Let_def)
      next
        case OpenRaises
        with Got False assms(1) restore show ?thesis
          by (simp add: download_wallpaper_def download_wallpaper_run_def download_failed_def Let_def)
      next
        case (WriteRaises n)
        with Got False assms(1) restore show ?thesis
          by (simp add: download_wallpaper_def download_wallpaper_run_def download_failed_def Let_def)
      qed
    qed
  qed
  then show ?thesis
    by (simp add: download_wallpaper_None_temp)
qed

theorem download_wallpaper_failure_cleans_up_witness:
  "download_wallpaper ((undisturbed ''JPEGDATA'')\<lparr>temp_write := WriteRaises 4\<rparr>)
     ''/home/u/Pictures/NASA-Wallpapers'' ''https://a/x~orig.jpg'' ''x'' fresh_world =
   (None, fresh_world\<lparr>log := [Error ''Download error'']\<rparr>)"
  using download_wallpaper_failure_cleans_up
    [of "(undisturbed ''JPEGDATA'')\<lparr>temp_write := WriteRaises 4\<rparr>" "''/tmp/tmpk3v9x1''" fresh_world
        "''/home/u/Pictures/NASA-Wallpapers''" "''https://a/x~orig.jpg''" "''x''"]
  by (simp add: undisturbed_def fresh_world_def)

text \<open>
  C4, as stated, fails on \<open>download_image\<close>: the script opens the final path itself and
  writes the response into it, so that a write that stops after four bytes leaves these
  four bytes there, and the exception leaves the function.
\<close>

theorem download_image_partial_file_counterexample:
  "fst (updater_download_image
          (Got \<lparr>status_code = 200, json_body = None, content = ''JPEGDATA''\<rparr>)
          (WriteRaises 4) ''/tmp/nasa_wallpaper.jpg'' Map.empty) = Inl OSError
   \<and> snd (updater_download_image
          (Got \<lparr>status_code = 200, json_body = None, content = ''JPEGDATA''\<rparr>)
          (WriteRaises 4) ''/tmp/nasa_wallpaper.jpg'' Map.empty) ''/tmp/nasa_wallpaper.jpg'' = Some ''JPEG''"
  by (simp add: updater_download_image_def)

text \<open>
  C8, as the code has it. A download that succeeds returns
  \<open>str(wallpaper_dir / filename)\<close> with \<open>filename\<close> =
  \<open>nasa_{nasa_id}_{timestamp}.{ext}\<close>, where \<open>ext\<close> is the text after the last dot of the whole
  URL, put in lower case by \<open>str.lower\<close>. When identifier, time stamp and that text contain
  no slash and the text is ASCII, the path is the directory, a slash and the file name.
  The file operations of the call are, in this order: the temporary file is created, the
  bytes of the response are written to it, \<open>shutil.move\<close> takes it to the path, the mode
  of the path is set; nothing else touches the path. When the URL has neither a query nor
  a fragment and its last path segment has a dot, \<open>ext\<close> is the extension of that segment
  in lower case.
\<close>

theorem successful_download_destination:
  assumes "download_wallpaper env dir url nid w = (Some p, w')"
  shows "p = path_join dir (''nasa_'' @ nid @ ''_'' @ timestamp env @ ''.''
                              @ str_lower (unicode_lower env) (last (py_split CHR ''.'' url)))
         \<and> (CHR ''/'' \<notin> set (nid @ timestamp env @ last (py_split CHR ''.'' url))
              \<and> is_ascii (last (py_split CHR ''.'' url)) \<and> path_names dir \<noteq> [] \<longrightarrow>
              p = path_str (path_anchor dir) (path_names dir) @ ''/'' @ ''nasa_'' @ nid @ ''_''
                    @ timestamp env @ ''.'' @ lower (last (py_split CHR ''.'' url)))
         \<and> (\<exists>t r. temp_file env = Some t \<and> http env = Got r
               \<and> snd (download_wallpaper_run env dir url nid w) =
                   [Create t, Write t (content r), Move t p, Chmod p]
               \<and> w' = w\<lparr>files := ((files w)(t \<mapsto> content r, p \<mapsto> content r))(t := None)\<rparr>)
         \<and> (CHR ''?'' \<notin> set url \<and> CHR ''#'' \<notin> set url \<and> CHR ''.'' \<in> set (final_segment url) \<longrightarrow>
              spec_extension (unicode_lower env) url =
                Some (str_lower (unicode_lower env) (last (py_split CHR ''.'' url))))"
proof -
  let ?ext = "last (py_split CHR ''.'' url)"
  from download_wallpaper_Some [OF assms] obtain t r where run:
    "temp_file env = Some t" "http env = Got r"
    "p = path_join dir (''nasa_'' @ nid @ ''_'' @ timestamp env @ ''.''
                          @ file_extension (unicode_lower env) url)"
    "w' = w\<lparr>files := ((files w)(t \<mapsto> content r, p \<mapsto> content r))(t := None)\<rparr>"
    "snd (download_wallpaper_run env dir url nid w) = [Create t, Write t (content r), Move t p, Chmod p]"
    by blast
  have path: "p = path_join dir (''nasa_'' @ nid @ ''_'' @ timestamp env @ ''.''
                                   @ str_lower (unicode_lower env) ?ext)"
    using run(3) by (simp add: file_extension_def)
  have plain: "CHR ''/'' \<notin> set (nid @ timestamp env @ ?ext) \<and> is_ascii ?ext \<and> path_names dir \<noteq> [] \<longrightarrow>
              p = path_str (path_anchor dir) (path_names dir) @ ''/'' @ ''nasa_'' @ nid @ ''_''
                    @ timestamp env @ ''.'' @ lower ?ext"
  proof
    assume h: "CHR ''/'' \<notin> set (nid @ timestamp env @ ?ext) \<and> is_ascii ?ext \<and> path_names dir \<noteq> []"
    let ?name = "''nasa_'' @ nid @ ''_'' @ timestamp env @ ''.'' @ lower ?ext"
    have "CHR ''/'' \<notin> set (lower ?ext)"
      using h by (intro lower_without_slash) simp
    with h have "CHR ''/'' \<notin> set ?name" by simp
    moreover have "?name \<noteq> []" and "?name \<noteq> ''.''" by simp_all
    moreover have "path_names dir \<noteq> []" using h by simp
    ultimately have "path_join dir ?name = path_str (path_anchor dir) (path_names dir) @ ''/'' @ ?name"
      by (rule path_join_plain)
    moreover have "str_lower (unicode_lower env) ?ext = lower ?ext"
      using h by (simp add: str_lower_def)
    ultimately show "p = path_str (path_anchor dir) (path_names dir) @ ''/'' @ ''nasa_'' @ nid @ ''_''
                    @ timestamp env @ ''.'' @ lower ?ext"
      using path by simp
  qed
  have route: "\<exists>t r. temp_file env = Some t \<and> http env = Got r
               \<and> snd (download_wallpaper_run env dir url nid w) =
                   [Create t, Write t (content r), Move t p, Chmod p]
               \<and> w' = w\<lparr>files := ((files w)(t \<mapsto> content r, p \<mapsto> content r))(t := None)\<rparr>"
    using run by blast
  have ext: "CHR ''?'' \<notin> set url \<and> CHR ''#'' \<notin> set url \<and> CHR ''.'' \<in> set (final_segment url) \<longrightarrow>
              spec_extension (unicode_lower env) url = Some (str_lower (unicode_lower env) ?ext)"
    using file_extension_is_spec_extension [of url "unicode_lower env"]
    by (simp add: file_extension_def)
  from path plain route ext show ?thesis by blast
qed

theorem successful_download_destination_witness:
  "fst (download_wallpaper (undisturbed ''JPEGDATA'') ''/home/u/Pictures/NASA-Wallpapers''
          ''https://a.example/image/x/x~orig.JPG'' ''x'' fresh_world) =
     Some ''/home/u/Pictures/NASA-Wallpapers/nasa_x_20240501_100000.jpg''
   \<and> snd (download_wallpaper_run (undisturbed ''JPEGDATA'') ''/home/u/Pictures/NASA-Wallpapers''
          ''https://a.example/image/x/x~orig.JPG'' ''x'' fresh_world) =
     [Create ''/tmp/tmpk3v9x1'', Write ''/tmp/tmpk3v9x1'' ''JPEGDATA'',
      Move ''/tmp/tmpk3v9x1'' ''/home/u/Pictures/NASA-Wallpapers/nasa_x_20240501_100000.jpg'',
      Chmod ''/home/u/Pictures/NASA-Wallpapers/nasa_x_20240501_100000.jpg'']
   \<and> spec_extension (unicode_lower (undisturbed ''JPEGDATA'')) ''https://a.example/image/x/x~orig.JPG'' =
     Some ''jpg''"
proof -
  let ?env = "undisturbed ''JPEGDATA''"
  let ?dir = "''/home/u/Pictures/NASA-Wallpapers''"
  let ?url = "''https://a.example/image/x/x~orig.JPG''"
  let ?p = "''/home/u/Pictures/NASA-Wallpapers/nasa_x_20240501_100000.jpg''"
  have ext: "last (py_split CHR ''.'' ?url) = ''JPG''"
    by simp
  have path: "fst (download_wallpaper ?env ?dir ?url ''x'' fresh_world) = Some ?p"
    by (simp add: download_wallpaper_def download_wallpaper_run_def undisturbed_def fresh_world_def
          Let_def file_extension_def str_lower_def is_ascii_def lower_def lower_char_def
          path_join_def path_anchor_def path_names_def path_str_def)
  then have run: "download_wallpaper ?env ?dir ?url ''x'' fresh_world =
     (Some ?p, snd (download_wallpaper ?env ?dir ?url ''x'' fresh_world))"
    by (simp add: prod_eq_iff)
  have plain: "CHR ''?'' \<notin> set ?url \<and> CHR ''#'' \<notin> set ?url \<and> CHR ''.'' \<in> set (final_segment ?url)"
    by (simp add: final_segment_def)
  have temp: "temp_file ?env = Some ''/tmp/tmpk3v9x1''"
    and bytes: "http ?env = Got \<lparr>status_code = 200, json_body = None, content = ''JPEGDATA''\<rparr>"
    by (simp_all add: undisturbed_def)
  from successful_download_destination [OF run]
  have ops: "\<exists>t r. temp_file ?env = Some t \<and> http ?env = Got r
               \<and> snd (download_wallpaper_run ?env ?dir ?url ''x'' fresh_world) =
                   [Create t, Write t (content r), Move t ?p, Chmod ?p]"
    and spec: "CHR ''?'' \<notin> set ?url \<and> CHR ''#'' \<notin> set ?url \<and> CHR ''.'' \<in> set (final_segment ?url) \<longrightarrow>
              spec_extension (unicode_lower ?env) ?url =
                Some (str_lower (unicode_lower ?env) (last (py_split CHR ''.'' ?url)))"
    by blast+
  from ops temp bytes have trace: "snd (download_wallpaper_run ?env ?dir ?url ''x'' fresh_world) =
     [Create ''/tmp/tmpk3v9x1'', Write ''/tmp/tmpk3v9x1'' ''JPEGDATA'', Move ''/tmp/tmpk3v9x1'' ?p, Chmod ?p]"
    by auto
  from spec plain have "spec_extension (unicode_lower ?env) ?url =
                Some (str_lower (unicode_lower ?env) (last (py_split CHR ''.'' ?url)))"
    by blast
  then have "spec_extension (unicode_lower ?env) ?url = Some ''jpg''"
    by (simp add: ext str_lower_def is_ascii_def lower_def lower_char_def)
  with path trace show ?thesis
    by (intro conjI)
qed

text \<open>
  C8, as stated, fails on a URL with a query: the file is a PNG by the last segment of the
  path, the manifest loop accepts the URL because it ends with \<open>.jpg\<close>, and the download
  succeeds under a name that ends with \<open>.jpg\<close>.
\<close>

theorem extension_from_query_counterexample:
  "is_image_href ''https://a.example/x.png?alt=x.jpg''
   \<and> fst (download_wallpaper (undisturbed ''PNGDATA'') ''/home/u/Pictures/NASA-Wallpapers''
          ''https://a.example/x.png?alt=x.jpg'' ''x'' fresh_world) =
     Some ''/home/u/Pictures/NASA-Wallpapers/nasa_x_20240501_100000.jpg''
   \<and> spec_extension (unicode_lower (undisturbed ''PNGDATA'')) ''https://a.example/x.png?alt=x.jpg'' =
     Some ''png''"
  by (simp add: is_image_href_def endswith_def download_wallpaper_def download_wallpaper_run_def
        undisturbed_def fresh_world_def Let_def file_extension_def spec_extension_def url_path_def
        final_segment_def str_lower_def is_ascii_def lower_def lower_char_def
        path_join_def path_anchor_def path_names_def path_str_def)

section \<open>The retry loops\<close>

lemma transient_failure_retried: "transient_failure rep \<Longrightarrow> retried c rep"
  by (cases rep) simp_all

lemma search_step:
  "a < retries \<Longrightarrow> retried c (net a) \<Longrightarrow>
   search_nasa_images_from c net retries a = search_nasa_images_from c net retries (a + 1)"
  by (cases "net a"; cases c)
     (auto simp add: search_nasa_images_from.simps [of _ net retries a] split: option.split)

lemma asset_step:
  "a < retries \<Longrightarrow> retried c (net a) \<Longrightarrow>
   get_asset_url_from c net retries a = get_asset_url_from c net retries (a + 1)"
  by (cases "net a"; cases c)
     (auto simp add: get_asset_url_from.simps [of _ net retries a] split: option.split)

lemma search_stop:
  "a < retries \<Longrightarrow> \<not> retried c (net a) \<Longrightarrow> snd (search_nasa_images_from c net retries a) = a + 1"
  by (cases "net a"; cases c)
     (auto simp add: search_nasa_images_from.simps [of _ net retries a] split: option.split)

lemma asset_stop:
  "a < retries \<Longrightarrow> \<not> retried c (net a) \<Longrightarrow> snd (get_asset_url_from c net retries a) = a + 1"
  by (cases "net a"; cases c)
     (auto simp add: get_asset_url_from.simps [of _ net retries a] split: option.split)

lemma search_skip:
  "(\<forall>i. a \<le> i \<and> i < a + k \<longrightarrow> retried c (net i)) \<Longrightarrow> a + k \<le> retries \<Longrightarrow>
   search_nasa_images_from c net retries a = search_nasa_images_from c net retries (a + k)"
proof (induction k arbitrary: a)
  case 0
  show ?case by simp
next
  case (Suc k)
  have "a < retries" and "retried c (net a)"
    using Suc.prems by simp_all
  then have "search_nasa_images_from c net retries a = search_nasa_images_from c net retries (a + 1)"
    by (rule search_step)
  also have "\<dots> = search_nasa_images_from c net retries ((a + 1) + k)"
    using Suc.prems by (intro Suc.IH) simp_all
  finally show ?case by simp
qed

lemma asset_skip:
  "(\<forall>i. a \<le> i \<and> i < a + k \<longrightarrow> retried c (net i)) \<Longrightarrow> a + k \<le> retries \<Longrightarrow>
   get_asset_url_from c net retries a = get_asset_url_from c net retries (a + k)"
proof (induction k arbitrary: a)
  case 0
  show ?case by simp
next
  case (Suc k)
  have "a < retries" and "retried c (net a)"
    using Suc.prems by simp_all
  then have "get_asset_url_from c net retries a = get_asset_url_from c net retries (a + 1)"
    by (rule asset_step)
  also have "\<dots> = get_asset_url_from c net retries ((a + 1) + k)"
    using Suc.prems by (intro Suc.IH) simp_all
  finally show ?case by simp
qed

lemma download_skip:
  "(\<forall>i. a \<le> i \<and> i < a + k \<longrightarrow> transient_failure (net i)) \<Longrightarrow> a + k \<le> retries \<Longrightarrow>
   download_image_from net wr p retries a fs = download_image_from net wr p retries (a + k) fs"
proof (induction k arbitrary: a)
  case 0
  show ?case by simp
next
  case (Suc k)
  have "transient_failure (net a)" and "a < retries"
    using Suc.prems by simp_all
  then have "download_image_from net wr p retries a fs = download_image_from net wr p retries (a + 1) fs"
    by (cases "net a") (simp_all add: download_image_from.simps [of net wr p retries a fs])
  also have "\<dots> = download_image_from net wr p retries ((a + 1) + k) fs"
    using Suc.prems by (intro Suc.IH) simp_all
  finally show ?case by simp
qed

lemma search_reaches:
  "\<forall>i<k. retried c (net i) \<Longrightarrow> k \<le> retries \<Longrightarrow>
   search_nasa_images c net retries = search_nasa_images_from c net retries k"
  using search_skip [of 0 k c net retries] by (simp add: search_nasa_images_def)

lemma asset_reaches:
  "\<forall>i<k. retried c (net i) \<Longrightarrow> k \<le> retries \<Longrightarrow>
   get_asset_url c net retries = get_asset_url_from c net retries k"
  using asset_skip [of 0 k c net retries] by (simp add: get_asset_url_def)

lemma download_reaches:
  "\<forall>i<k. transient_failure (net i) \<Longrightarrow> k \<le> retries \<Longrightarrow>
   download_image net wr p retries fs = download_image_from net wr p retries k fs"
  using download_skip [of 0 k net retries wr p fs] by (simp add: download_image_def)

lemma search_requests_from:
  "a \<le> retries \<Longrightarrow>
   (k < snd (search_nasa_images_from c net retries a)) =
     (k < a \<or> (k < retries \<and> (\<forall>i. a \<le> i \<and> i < k \<longrightarrow> retried c (net i))))"
proof (induction "retries - a" arbitrary: a)
  case 0
  then have "a = retries" by simp
  then show ?case
    by (auto simp add: search_nasa_images_from.simps [of c net retries retries])
next
  case (Suc n)
  then have lt: "a < retries" by simp
  have "n = retries - (a + 1)" and "a + 1 \<le> retries"
    using Suc.hyps(2) by simp_all
  then have later: "(k < snd (search_nasa_images_from c net retries (a + 1))) =
     (k < a + 1 \<or> (k < retries \<and> (\<forall>i. a + 1 \<le> i \<and> i < k \<longrightarrow> retried c (net i))))"
    by (rule Suc.hyps(1))
  show ?case
  proof (cases "retried c (net a)")
    case True
    have split: "(\<forall>i. a \<le> i \<and> i < k \<longrightarrow> retried c (net i)) =
                 (\<forall>i. a + 1 \<le> i \<and> i < k \<longrightarrow> retried c (net i))"
    proof
      assume "\<forall>i. a \<le> i \<and> i < k \<longrightarrow> retried c (net i)"
      then show "\<forall>i. a + 1 \<le> i \<and> i < k \<longrightarrow> retried c (net i)" by simp
    next
      assume h: "\<forall>i. a + 1 \<le> i \<and> i < k \<longrightarrow> retried c (net i)"
      show "\<forall>i. a \<le> i \<and> i < k \<longrightarrow> retried c (net i)"
      proof (intro allI impI)
        fix i assume "a \<le> i \<and> i < k"
        then have "i = a \<or> (a + 1 \<le> i \<and> i < k)" by arith
        with True h show "retried c (net i)" by blast
      qed
    qed
    have "search_nasa_images_from c net retries a = search_nasa_images_from c net retries (a + 1)"
      using lt True by (rule search_step)
    with later split lt show ?thesis by auto
  next
    case False
    have "snd (search_nasa_images_from c net retries a) = a + 1"
      using lt False by (rule search_stop)
    moreover have "(\<forall>i. a \<le> i \<and> i < k \<longrightarrow> retried c (net i)) = (k \<le> a)"
      using False by (auto simp add: not_less [symmetric])
    ultimately show ?thesis using lt by auto
  qed
qed

lemma asset_requests_from:
  "a \<le> retries \<Longrightarrow>
   (k < snd (get_asset_url_from c net retries a)) =
     (k < a \<or> (k < retries \<and> (\<forall>i. a \<le> i \<and> i < k \<longrightarrow> retried c (net i))))"
proof (induction "retries - a" arbitrary: a)
  case 0
  then have "a = retries" by simp
  then show ?case
    by (auto simp add: get_asset_url_from.simps [of c net retries retries])
next
  case (Suc n)
  then have lt: "a < retries" by simp
  have "n = retries - (a + 1)" and "a + 1 \<le> retries"
    using Suc.hyps(2) by simp_all
  then have later: "(k < snd (get_asset_url_from c net retries (a + 1))) =
     (k < a + 1 \<or> (k < retries \<and> (\<forall>i. a + 1 \<le> i \<and> i < k \<longrightarrow> retried c (net i))))"
    by (rule Suc.hyps(1))
  show ?case
  proof (cases "retried c (net a)")
    case True
    have split: "(\<forall>i. a \<le> i \<and> i < k \<longrightarrow> retried c (net i)) =
                 (\<forall>i. a + 1 \<le> i \<and> i < k \<longrightarrow> retried c (net i))"
    proof
      assume "\<forall>i. a \<le> i \<and> i < k \<longrightarrow> retried c (net i)"
      then show "\<forall>i. a + 1 \<le> i \<and> i < k \<longrightarrow> retried c (net i)" by simp
    next
      assume h: "\<forall>i. a + 1 \<le> i \<and> i < k \<longrightarrow> retried c (net i)"
      show "\<forall>i. a \<le> i \<and> i < k \<longrightarrow> retried c (net i)"
      proof (intro allI impI)
        fix i assume "a \<le> i \<and> i < k"
        then have "i = a \<or> (a + 1 \<le> i \<and> i < k)" by arith
        with True h show "retried c (net i)" by blast
      qed
    qed
    have "get_asset_url_from c net retries a = get_asset_url_from c net retries (a + 1)"
      using lt True by (rule asset_step)
    with later split lt show ?thesis by auto
  next
    case False
    have "snd (get_asset_url_from c net retries a) = a + 1"
      using lt False by (rule asset_stop)
    moreover have "(\<forall>i. a \<le> i \<and> i < k \<longrightarrow> retried c (net i)) = (k \<le> a)"
      using False by (auto simp add: not_less [symmetric])
    ultimately show ?thesis using lt by auto
  qed
qed

lemma search_requests:
  "(k < snd (search_nasa_images c net retries)) = (k < retries \<and> (\<forall>i<k. retried c (net i)))"
  using search_requests_from [of 0 retries k c net] by (simp add: search_nasa_images_def)

lemma asset_requests:
  "(k < snd (get_asset_url c net retries)) = (k < retries \<and> (\<forall>i<k. retried c (net i)))"
  using asset_requests_from [of 0 retries k c net] by (simp add: get_asset_url_def)

text \<open>
  C3, as the code has it. \<open>retries\<close> is the number of attempts. When the first \<open>k\<close>
  attempts fail (no response, or a status other than 200) and attempt \<open>k < retries\<close> is
  answered with status 200, the stage returns what that response gives, after \<open>k + 1\<close>
  requests. When the first \<open>retries\<close> attempts all fail, the stage stops after exactly
  \<open>retries\<close> requests and returns \<open>None\<close>.
\<close>

theorem retry_within_budget:
  assumes "\<forall>i<k. transient_failure (net i)"
  shows "(k < retries \<and> net k = Got r \<and> status_code r = 200 \<and> json_body r = Some data \<longrightarrow>
            search_nasa_images c net retries = (search_result data, k + 1)
            \<and> get_asset_url c net retries = (asset_result data, k + 1))
         \<and> (k < retries \<and> net k = Got r \<and> status_code r = 200 \<longrightarrow>
            download_image net WriteOk save_path retries fs =
              (Inr JNull, k + 1, fs(save_path \<mapsto> content r)))
         \<and> (retries \<le> k \<longrightarrow>
            search_nasa_images c net retries = (Inr JNull, retries)
            \<and> get_asset_url c net retries = (Inr JNull, retries)
            \<and> download_image net wr save_path retries fs = (Inr JNull, retries, fs))"
proof (intro conjI impI)
  assume ok: "k < retries \<and> net k = Got r \<and> status_code r = 200 \<and> json_body r = Some data"
  then have "k \<le> retries" by simp
  from assms have again: "\<forall>i<k. retried c (net i)"
    by (simp add: transient_failure_retried)
  from again \<open>k \<le> retries\<close>
  have "search_nasa_images c net retries = search_nasa_images_from c net retries k"
    by (rule search_reaches)
  with ok show "search_nasa_images c net retries = (search_result data, k + 1)"
    by (simp add: search_nasa_images_from.simps [of c net retries k])
  from again \<open>k \<le> retries\<close> have "get_asset_url c net retries = get_asset_url_from c net retries k"
    by (rule asset_reaches)
  with ok show "get_asset_url c net retries = (asset_result data, k + 1)"
    by (simp add: get_asset_url_from.simps [of c net retries k])
next
  assume ok: "k < retries \<and> net k = Got r \<and> status_code r = 200"
  then have "k \<le> retries" by simp
  with assms have "download_image net WriteOk save_path retries fs =
      download_image_from net WriteOk save_path retries k fs"
    by (rule download_reaches)
  with ok show "download_image net WriteOk save_path retries fs =
      (Inr JNull, k + 1, fs(save_path \<mapsto> content r))"
    by (simp add: download_image_from.simps [of net WriteOk save_path retries k fs])
next
  assume over: "retries \<le> k"
  with assms have all: "\<forall>i<retries. transient_failure (net i)" by simp
  then have again: "\<forall>i<retries. retried c (net i)"
    by (simp add: transient_failure_retried)
  then have "search_nasa_images c net retries = search_nasa_images_from c net retries retries"
    by (rule search_reaches) simp
  then show "search_nasa_images c net retries = (Inr JNull, retries)"
    by (simp add: search_nasa_images_from.simps [of c net retries retries])
  from again have "get_asset_url c net retries = get_asset_url_from c net retries retries"
    by (rule asset_reaches) simp
  then show "get_asset_url c net retries = (Inr JNull, retries)"
    by (simp add: get_asset_url_from.simps [of c net retries retries])
  from all have "download_image net wr save_path retries fs =
      download_image_from net wr save_path retries retries fs"
    by (rule download_reaches) simp
  then show "download_image net wr save_path retries fs = (Inr JNull, retries, fs)"
    by (simp add: download_image_from.simps [of net wr save_path retries retries fs])
qed

theorem retry_within_budget_witness:
  "search_nasa_images True
     (\<lambda>i. if i < 2 then ConnectionFailed
          else Got \<lparr>status_code = 200,
                    json_body = Some (JObj [(''collection'', JObj [(''items'',
                      JList [JObj [(''data'', JList [JObj [(''nasa_id'', JStr ''PIA12345'')]])]])])]),
                    content = ''JPEGDATA''\<rparr>) 3 =
     (Inr (JStr ''PIA12345''), 3)
   \<and> download_image
     (\<lambda>i. if i < 2 then ConnectionFailed
          else Got \<lparr>status_code = 200,
                    json_body = Some (JObj [(''collection'', JObj [(''items'',
                      JList [JObj [(''data'', JList [JObj [(''nasa_id'', JStr ''PIA12345'')]])]])])]),
                    content = ''JPEGDATA''\<rparr>) WriteOk ''/tmp/nasa_wallpaper.jpg'' 3 Map.empty =
     (Inr JNull, 3, [''/tmp/nasa_wallpaper.jpg'' \<mapsto> ''JPEGDATA''])"
  using retry_within_budget
    [of 2
        "\<lambda>i. if i < 2 then ConnectionFailed
          else Got \<lparr>status_code = 200,
                    json_body = Some (JObj [(''collection'', JObj [(''items'',
                      JList [JObj [(''data'', JList [JObj [(''nasa_id'', JStr ''PIA12345'')]])]])])]),
                    content = ''JPEGDATA''\<rparr>"
        3
        "\<lparr>status_code = 200,
          json_body = Some (JObj [(''collection'', JObj [(''items'',
            JList [JObj [(''data'', JList [JObj [(''nasa_id'', JStr ''PIA12345'')]])]])])]),
          content = ''JPEGDATA''\<rparr>"
        "JObj [(''collection'', JObj [(''items'',
            JList [JObj [(''data'', JList [JObj [(''nasa_id'', JStr ''PIA12345'')]])]])])]"
        True "''/tmp/nasa_wallpaper.jpg''" Map.empty WriteOk]
  by (simp add: search_result_def)

text \<open>
  C3, as stated, fails on the second half. With three attempts allowed and every request
  failing, \<open>search_nasa_images\<close> and \<open>download_image\<close> stop after three requests and return
  \<open>None\<close>, not an error: it is the value \<open>download_image\<close> returns when the first request
  succeeds.
\<close>

theorem exhausted_retries_return_none_counterexample:
  "search_nasa_images True (\<lambda>i. ConnectionFailed) 3 = (Inr JNull, 3)
   \<and> download_image (\<lambda>i. ConnectionFailed) WriteOk ''/tmp/nasa_wallpaper.jpg'' 3 Map.empty =
       (Inr JNull, 3, Map.empty)
   \<and> fst (download_image (\<lambda>i. Got \<lparr>status_code = 200, json_body = None, content = ''JPEGDATA''\<rparr>)
            WriteOk ''/tmp/nasa_wallpaper.jpg'' 3 Map.empty) = Inr JNull"
  by (simp add: search_nasa_images_def search_nasa_images_from.simps
        download_image_def download_image_from.simps)

text \<open>
  C7, as the code has it. In every call of \<open>search_nasa_images\<close> and of \<open>get_asset_url\<close> a
  further request is made exactly when attempts are left and every request so far met a
  failed connection, a status other than 200 or, where the decoding error of the library
  is a \<open>RequestException\<close>, a body that is not JSON. So a response with status 200 and a
  JSON body is never followed by a retry: the function returns or raises what the
  document gives, at once, also when the expected fields are missing. A response with
  status 200 whose body is not JSON makes the function raise at once when the decoding
  error is not a \<open>RequestException\<close>.
\<close>

theorem retry_on_transient_failures_only:
  "((k < snd (search_nasa_images c net retries)) = (k < retries \<and> (\<forall>i<k. retried c (net i))))
   \<and> ((k < snd (get_asset_url c net retries)) = (k < retries \<and> (\<forall>i<k. retried c (net i))))
   \<and> (k < retries \<and> (\<forall>i<k. retried c (net i)) \<and> net k = Got r \<and> status_code r = 200 \<longrightarrow>
        (json_body r = Some data \<longrightarrow>
           search_nasa_images c net retries = (search_result data, k + 1)
           \<and> get_asset_url c net retries = (asset_result data, k + 1))
        \<and> (json_body r = None \<and> \<not> c \<longrightarrow>
           search_nasa_images c net retries = (Inl JSONDecodeError, k + 1)
           \<and> get_asset_url c net retries = (Inl JSONDecodeError, k + 1)))"
proof -
  have requests: "(k < snd (search_nasa_images c net retries)) = (k < retries \<and> (\<forall>i<k. retried c (net i)))"
    "(k < snd (get_asset_url c net retries)) = (k < retries \<and> (\<forall>i<k. retried c (net i)))"
    by (rule search_requests, rule asset_requests)
  have answer: "k < retries \<and> (\<forall>i<k. retried c (net i)) \<and> net k = Got r \<and> status_code r = 200 \<longrightarrow>
        (json_body r = Some data \<longrightarrow>
           search_nasa_images c net retries = (search_result data, k + 1)
           \<and> get_asset_url c net retries = (asset_result data, k + 1))
        \<and> (json_body r = None \<and> \<not> c \<longrightarrow>
           search_nasa_images c net retries = (Inl JSONDecodeError, k + 1)
           \<and> get_asset_url c net retries = (Inl JSONDecodeError, k + 1))"
  proof
    assume h: "k < retries \<and> (\<forall>i<k. retried c (net i)) \<and> net k = Got r \<and> status_code r = 200"
    then have le: "k \<le> retries" and again: "\<forall>i<k. retried c (net i)" by simp_all
    have search_k: "search_nasa_images c net retries = search_nasa_images_from c net retries k"
      using again le by (rule search_reaches)
    have asset_k: "get_asset_url c net retries = get_asset_url_from c net retries k"
      using again le by (rule asset_reaches)
    from h show "(json_body r = Some data \<longrightarrow>
           search_nasa_images c net retries = (search_result data, k + 1)
           \<and> get_asset_url c net retries = (asset_result data, k + 1))
        \<and> (json_body r = None \<and> \<not> c \<longrightarrow>
           search_nasa_images c net retries = (Inl JSONDecodeError, k + 1)
           \<and> get_asset_url c net retries = (Inl JSONDecodeError, k + 1))"
      using search_k asset_k
      by (cases c)
         (simp_all add: search_nasa_images_from.simps [of _ net retries k]
            get_asset_url_from.simps [of _ net retries k])
  qed
  from requests answer show ?thesis by blast
qed

theorem retry_on_transient_failures_only_witness:
  "search_nasa_images True
     (\<lambda>i. if i < 1 then Got \<lparr>status_code = 200, json_body = None, content = ''<html>''\<rparr>
          else Got \<lparr>status_code = 200, json_body = Some (JObj [(''message'', JStr ''ok'')]), content = []\<rparr>) 3 =
     (Inl KeyError, 2)"
  using retry_on_transient_failures_only
    [of 1 True
        "\<lambda>i. if i < 1 then Got \<lparr>status_code = 200, json_body = None, content = ''<html>''\<rparr>
          else Got \<lparr>status_code = 200, json_body = Some (JObj [(''message'', JStr ''ok'')]), content = []\<rparr>"
        3
        "\<lparr>status_code = 200, json_body = Some (JObj [(''message'', JStr ''ok'')]), content = []\<rparr>"
        "JObj [(''message'', JStr ''ok'')]"]
  by (simp add: search_result_def)

text \<open>
  C7, as stated, fails with a \<open>requests\<close> library whose decoding error is a
  \<open>RequestException\<close>: the first response has status 200 and a body that is not JSON, and
  the function asks again and returns the identifier of the second response.
\<close>

theorem decode_error_is_retried_counterexample:
  "search_nasa_images True
     (\<lambda>i. if i < 1 then Got \<lparr>status_code = 200, json_body = None, content = ''<html>''\<rparr>
          else Got \<lparr>status_code = 200,
                    json_body = Some (JObj [(''collection'', JObj [(''items'',
                      JList [JObj [(''data'', JList [JObj [(''nasa_id'', JStr ''PIA12345'')]])]])])]),
                    content = []\<rparr>) 3 =
     (Inr (JStr ''PIA12345''), 2)"
  by (simp add: search_nasa_images_def search_nasa_images_from.simps search_result_def)

section \<open>An empty search result\<close>

text \<open>
  C9, as the code has it. When a request is answered with status 200 and a document that
  holds an empty list of items, \<open>search_nasa_images\<close> returns \<open>None\<close> at once: no exception
  and, in apiscript.py, no further request, whichever attempt it is. \<open>None\<close> is also what
  the function returns for a failed search: a response with another status in
  \<open>nasa_wallpaper_updater.py\<close>, all attempts used up in apiscript.py.
\<close>

theorem empty_search_returns_none:
  assumes "status_code r = 200" and "json_body r = Some data"
    and "getitem_str data ''collection'' = Inr collection"
    and "getitem_str collection ''items'' = Inr (JList [])"
  shows "updater_search_nasa_images (Got r) = Inr JNull
         \<and> (k < retries \<and> (\<forall>i<k. retried c (net i)) \<and> net k = Got r \<longrightarrow>
              search_nasa_images c net retries = (Inr JNull, k + 1))
         \<and> (status_code r' \<noteq> 200 \<longrightarrow> updater_search_nasa_images (Got r') = Inr JNull)
         \<and> ((\<forall>i<retries. retried c (net' i)) \<longrightarrow>
              search_nasa_images c net' retries = (Inr JNull, retries))"
proof -
  have empty: "search_result data = Inr JNull"
    using assms(3,4) by (simp add: search_result_def)
  have simple: "updater_search_nasa_images (Got r) = Inr JNull"
    using assms(1,2) empty by (simp add: updater_search_nasa_images_def)
  have looping: "k < retries \<and> (\<forall>i<k. retried c (net i)) \<and> net k = Got r \<longrightarrow>
              search_nasa_images c net retries = (Inr JNull, k + 1)"
  proof
    assume h: "k < retries \<and> (\<forall>i<k. retried c (net i)) \<and> net k = Got r"
    then have "\<forall>i<k. retried c (net i)" and "k \<le> retries" by simp_all
    then have "search_nasa_images c net retries = search_nasa_images_from c net retries k"
      by (rule search_reaches)
    with h assms(1,2) empty show "search_nasa_images c net retries = (Inr JNull, k + 1)"
      by (simp add: search_nasa_images_from.simps [of c net retries k])
  qed
  have failed: "status_code r' \<noteq> 200 \<longrightarrow> updater_search_nasa_images (Got r') = Inr JNull"
    by (simp add: updater_search_nasa_images_def)
  have used_up: "(\<forall>i<retries. retried c (net' i)) \<longrightarrow>
              search_nasa_images c net' retries = (Inr JNull, retries)"
  proof
    assume "\<forall>i<retries. retried c (net' i)"
    then have "search_nasa_images c net' retries = search_nasa_images_from c net' retries retries"
      by (rule search_reaches) simp
    then show "search_nasa_images c net' retries = (Inr JNull, retries)"
      by (simp add: search_nasa_images_from.simps [of c net' retries retries])
  qed
  from simple looping failed used_up show ?thesis by blast
qed

theorem empty_search_returns_none_witness:
  "updater_search_nasa_images
     (Got \<lparr>status_code = 200,
           json_body = Some (JObj [(''collection'', JObj [(''items'', JList [])])]),
           content = []\<rparr>) = Inr JNull
   \<and> search_nasa_images True
       (\<lambda>i. if i < 1 then ConnectionFailed
            else Got \<lparr>status_code = 200,
                      json_body = Some (JObj [(''collection'', JObj [(''items'', JList [])])]),
                      content = []\<rparr>) 3 = (Inr JNull, 2)
   \<and> updater_search_nasa_images (Got \<lparr>status_code = 503, json_body = None, content = []\<rparr>) = Inr JNull
   \<and> search_nasa_images True (\<lambda>i. ConnectionFailed) 3 = (Inr JNull, 3)"
  using empty_search_returns_none
    [of "\<lparr>status_code = 200,
           json_body = Some (JObj [(''collection'', JObj [(''items'', JList [])])]),
           content = []\<rparr>"
        "JObj [(''collection'', JObj [(''items'', JList [])])]"
        "JObj [(''items'', JList [])]"
        1 3 True
        "\<lambda>i. if i < 1 then ConnectionFailed
            else Got \<lparr>status_code = 200,
                      json_body = Some (JObj [(''collection'', JObj [(''items'', JList [])])]),
                      content = []\<rparr>"
        "\<lparr>status_code = 503, json_body = None, content = []\<rparr>"
        "\<lambda>i. ConnectionFailed"]
  by simp

text \<open>
  C9, as stated, fails: the value returned for an empty result is the value returned for
  a failed search, in both scripts, so that the caller cannot tell one from the other.
\<close>

theorem empty_search_like_failure_counterexample:
  "updater_search_nasa_images
     (Got \<lparr>status_code = 200,
           json_body = Some (JObj [(''collection'', JObj [(''items'', JList [])])]),
           content = []\<rparr>) =
   updater_search_nasa_images (Got \<lparr>status_code = 500, json_body = None, content = []\<rparr>)
   \<and> fst (search_nasa_images True
       (\<lambda>k. Got \<lparr>status_code = 200,
                  json_body = Some (JObj [(''collection'', JObj [(''items'', JList [])])]),
                  content = []\<rparr>) 3) =
     fst (search_nasa_images True (\<lambda>k. ConnectionFailed) 3)"
  by (simp add: updater_search_nasa_images_def search_result_def search_nasa_images_def
        search_nasa_images_from.simps)

end
